theory Spec2Isabelle
  imports Main "HOL-Library.Multiset"
begin

section \<open>Data model\<close>

text \<open>
  The records of \<open>src/processManager.ts\<close>. A JavaScript number that holds a process id
  or a port is held as an \<open>int\<close>: the integer value of the double. A process id is always
  finite. A port can be \<open>Infinity\<close> (a numeral too long for a double); it is then held as
  \<open>2^1024\<close>, the value an overflowing numeral rounds to, which compares with every finite
  number as \<open>Infinity\<close> does. An optional property is an \<open>option\<close>.
\<close>

record PortProcess =
  pid :: int
  port :: int
  protocol :: string
  address :: string
  command :: "string option"

text \<open>
  A thrown value. \<open>is_Error\<close> is \<open>error instanceof Error\<close>; \<open>err_stdout\<close> is \<open>None\<close>
  when the value has no \<open>stdout\<close> property, \<open>Some None\<close> when the property is there
  and holds \<open>undefined\<close> or \<open>null\<close>, \<open>Some (Some s)\<close> when it holds the text \<open>s\<close>;
  \<open>err_code\<close> is the \<open>code\<close> property.
\<close>

record js_error =
  is_Error :: bool
  err_stdout :: "string option option"
  err_code :: "string option"
  err_message :: string

text \<open>One entry of the array that \<open>findProcess('pid', pid)\<close> resolves to.\<close>

record proc_detail =
  cmd :: "string option"
  name :: "string option"

type_synonym find_process = "int \<Rightarrow> js_error + proc_detail list"

text \<open>\<open>if (item.command)\<close>: a command is truthy when it is present and not empty.\<close>

definition truthy :: "string option \<Rightarrow> bool" where
  "truthy c = (case c of None \<Rightarrow> False | Some s \<Rightarrow> s \<noteq> [])"

section \<open>Identity enricher\<close>

text \<open>\<open>[...new Set(xs)]\<close>: the distinct elements in order of first occurrence.\<close>

fun set_spread :: "'a list \<Rightarrow> 'a list" where
  "set_spread [] = []"
| "set_spread (x # xs) = x # set_spread (filter (\<lambda>y. y \<noteq> x) xs)"

text \<open>\<open>detail.cmd ?? detail.name ?? ''\<close>\<close>

definition detail_text :: "proc_detail \<Rightarrow> string" where
  "detail_text detail =
     (case cmd detail of Some c \<Rightarrow> c
      | None \<Rightarrow> (case name detail of Some n \<Rightarrow> n | None \<Rightarrow> []))"

text \<open>
  The callback run for one process id: the \<open>try\<close> block, then the \<open>finally\<close>
  block, which runs on both paths. The first component is the rejection, if any.
\<close>

definition resolve_pid ::
  "find_process \<Rightarrow> int \<Rightarrow> (int \<rightharpoonup> string) \<Rightarrow> js_error option \<times> (int \<rightharpoonup> string)" where
  "resolve_pid findProcess p pidDetails =
     (let (thrown, tried) =
            (case findProcess p of
               Inl e \<Rightarrow> (Some e, pidDetails)
             | Inr matches \<Rightarrow>
                 (None, (case matches of
                           [] \<Rightarrow> pidDetails
                         | detail # _ \<Rightarrow> pidDetails(p \<mapsto> detail_text detail))))
      in (thrown, tried(p \<mapsto> [])))"

text \<open>
  \<open>Promise.all(pids.map(...))\<close>: every callback runs; the whole rejects when one of
  them does. The callbacks write disjoint keys, so the map does not depend on the order
  in which they finish; the rejection reported is taken to be the first in list order.
\<close>

fun resolve_all ::
  "find_process \<Rightarrow> int list \<Rightarrow> (int \<rightharpoonup> string) \<Rightarrow> js_error option \<times> (int \<rightharpoonup> string)" where
  "resolve_all findProcess [] pidDetails = (None, pidDetails)"
| "resolve_all findProcess (p # ps) pidDetails =
     (let (thrown, d) = resolve_pid findProcess p pidDetails;
          (thrown', d') = resolve_all findProcess ps d
      in ((case thrown of Some e \<Rightarrow> Some e | None \<Rightarrow> thrown'), d'))"

definition enrich_item :: "(int \<rightharpoonup> string) \<Rightarrow> PortProcess \<Rightarrow> PortProcess" where
  "enrich_item pidDetails item =
     (if truthy (command item) then item
      else item\<lparr>command := pidDetails (pid item)\<rparr>)"

definition enrichProcesses :: "find_process \<Rightarrow> PortProcess list \<Rightarrow> js_error + PortProcess list" where
  "enrichProcesses findProcess base =
     (case resolve_all findProcess (set_spread (map pid base)) Map.empty of
        (Some e, _) \<Rightarrow> Inl e
      | (None, pidDetails) \<Rightarrow> Inr (map (enrich_item pidDetails) base))"

section \<open>Text primitives of the runtime\<close>

text \<open>
  Text is a list of 8-bit characters; the output of both listing tools is ASCII.
  \<open>is_space\<close> is the class \<open>\s\<close>, which is also what \<open>trim()\<close> strips; \<open>is_digit\<close> is
  \<open>\d\<close> and \<open>is_word\<close> is \<open>\w\<close>.
\<close>

definition is_space :: "char \<Rightarrow> bool" where
  "is_space c = (c = CHR 0x09 \<or> c = CHR 0x0A \<or> c = CHR 0x0B \<or> c = CHR 0x0C \<or>
                 c = CHR 0x0D \<or> c = CHR 0x20 \<or> c = CHR 0xA0)"

definition is_digit :: "char \<Rightarrow> bool" where
  "is_digit c = (let n = (of_char c :: nat) in 48 \<le> n \<and> n \<le> 57)"

definition is_word :: "char \<Rightarrow> bool" where
  "is_word c = (let n = (of_char c :: nat) in
     (48 \<le> n \<and> n \<le> 57) \<or> (65 \<le> n \<and> n \<le> 90) \<or> (97 \<le> n \<and> n \<le> 122) \<or> n = 95)"

definition trim :: "string \<Rightarrow> string" where
  "trim s = rev (dropWhile is_space (rev (dropWhile is_space s)))"

definition startsWith :: "string \<Rightarrow> string \<Rightarrow> bool" where
  "startsWith s p = (take (length p) s = p)"

definition endsWith :: "string \<Rightarrow> string \<Rightarrow> bool" where
  "endsWith s p = (length p \<le> length s \<and> drop (length s - length p) s = p)"

text \<open>
  \<open>toUpperCase()\<close> on the letters \<open>a\<close> to \<open>z\<close>. Its result is only ever compared with
  \<open>TCP\<close> and \<open>UDP\<close>, and no character outside ASCII is mapped to one of their letters, so
  the other characters are left as they are.
\<close>

definition to_upper :: "char \<Rightarrow> char" where
  "to_upper c = (let n = (of_char c :: nat) in if 97 \<le> n \<and> n \<le> 122 then char_of (n - 32) else c)"

definition toUpperCase :: "string \<Rightarrow> string" where
  "toUpperCase s = map to_upper s"

text \<open>\<open>split(/\r?\n/)\<close>: a line ends at \<open>\n\<close>, or at \<open>\r\n\<close>; the result is never empty.\<close>

fun split_lines :: "string \<Rightarrow> string list" where
  "split_lines [] = [[]]"
| "split_lines [c] = (if c = CHR 0x0A then [[], []] else [[c]])"
| "split_lines (c # d # cs) =
     (if c = CHR 0x0D \<and> d = CHR 0x0A then [] # split_lines cs
      else if c = CHR 0x0A then [] # split_lines (d # cs)
      else (case split_lines (d # cs) of
              [] \<Rightarrow> [[c]]
            | l # ls \<Rightarrow> (c # l) # ls))"

text \<open>
  \<open>split(/\s+/)\<close>: the pieces between maximal runs of white space; a run at the start or
  at the end leaves an empty piece there, and the empty text gives one empty piece.
\<close>

function split_ws :: "string \<Rightarrow> string list" where
  "split_ws s =
     (let piece = takeWhile (\<lambda>c. \<not> is_space c) s;
          rest = dropWhile (\<lambda>c. \<not> is_space c) s
      in if rest = [] then [piece] else piece # split_ws (dropWhile is_space rest))"
  by pat_completeness auto
termination
proof (relation "measure length")
  show "wf (measure length)" by simp
next
  fix s :: string and piece rest
  assume r: "rest = dropWhile (\<lambda>c. \<not> is_space c) s" and ne: "rest \<noteq> []"
  from ne obtain c cs where rc: "rest = c # cs" by (cases rest) auto
  have "length (dropWhile is_space rest) \<le> length rest"
    by (rule length_dropWhile_le)
  moreover have "dropWhile (\<lambda>c. \<not> is_space c) s \<noteq> []"
    using r ne by simp
  then have "\<not> \<not> is_space (hd (dropWhile (\<lambda>c. \<not> is_space c) s))"
    by (rule hd_dropWhile)
  then have "is_space c"
    using r rc by (metis list.sel(1))
  then have "length (dropWhile is_space rest) \<le> length cs"
    by (simp add: rc length_dropWhile_le)
  moreover have "length rest \<le> length s"
    unfolding r by (rule length_dropWhile_le)
  ultimately show "(dropWhile is_space rest, s) \<in> measure length"
    by (simp add: rc)
qed

declare split_ws.simps [simp del]

text \<open>\<open>xs[i]\<close>, which is \<open>undefined\<close> past the end.\<close>

definition at :: "'a list \<Rightarrow> nat \<Rightarrow> 'a option" where
  "at xs i = (if i < length xs then Some (xs ! i) else None)"

text \<open>
  The number a decimal numeral denotes: its value rounded to the nearest double, ties to
  even. Below \<open>2^53\<close> every integer is a double. Above, the value keeps its 53 leading
  bits; \<open>bits\<close> is the length of the binary numeral. A value that rounds to \<open>2^1024\<close> or
  more is \<open>Infinity\<close>.
\<close>

definition digit_val :: "char \<Rightarrow> int" where
  "digit_val c = int (of_char c) - 48"

definition decimal :: "string \<Rightarrow> int" where
  "decimal ds = foldl (\<lambda>a c. 10 * a + digit_val c) 0 ds"

function bits :: "int \<Rightarrow> nat" where
  "bits n = (if n \<le> 0 then 0 else Suc (bits (n div 2)))"
  by pat_completeness auto
termination
  by (relation "measure nat") auto

declare bits.simps [simp del]

definition Infinity :: int where
  "Infinity = 2 ^ 1024"

definition to_double :: "int \<Rightarrow> int" where
  "to_double n =
     (if n < 9007199254740992 then n
      else
        let e = bits n - 53;
            q = n div 2 ^ e;
            r = n mod 2 ^ e;
            v = (if 2 * r > 2 ^ e \<or> (2 * r = 2 ^ e \<and> odd q) then (q + 1) * 2 ^ e
                 else q * 2 ^ e)
        in if v \<ge> Infinity then Infinity else v)"

text \<open>
  \<open>Number.parseInt(s, 10)\<close> followed by \<open>Number.isFinite\<close>: leading white space, an
  optional sign, then the longest run of digits, read as a number. \<open>None\<close> stands for
  the results that are not finite: \<open>NaN\<close> when there is no digit, and \<open>Infinity\<close> when
  the numeral overflows. The argument \<open>undefined\<close> is converted to the text
  \<open>undefined\<close> first.
\<close>

definition parseInt :: "string \<Rightarrow> int option" where
  "parseInt s =
     (let t = dropWhile is_space s;
          negative = (t \<noteq> [] \<and> hd t = CHR ''-'');
          u = (if t \<noteq> [] \<and> (hd t = CHR ''-'' \<or> hd t = CHR ''+'') then tl t else t);
          ds = takeWhile is_digit u
      in if ds = [] then None
         else if to_double (decimal ds) \<ge> Infinity then None
         else Some (if negative then - to_double (decimal ds) else to_double (decimal ds)))"

definition parseInt_arg :: "string option \<Rightarrow> int option" where
  "parseInt_arg a = (case a of None \<Rightarrow> parseInt ''undefined'' | Some s \<Rightarrow> parseInt s)"

text \<open>Stripping the brackets of an IPv6 literal: \<open>address.slice(1, -1)\<close>.\<close>

definition strip_brackets :: "string \<Rightarrow> string" where
  "strip_brackets a = (if startsWith a ''['' \<and> endsWith a '']'' then butlast (tl a) else a)"

section \<open>Raw listener parser\<close>

text \<open>
  \<open>parseAddress\<close>: the pattern \<open>/^(.*):(\d+)$/\<close>. The text must end in a colon and a
  non-empty run of digits; the colon is then the last one, and what stands in front of it may
  not hold a line terminator (which \<open>.\<close> does not match). \<open>Number.parseInt\<close> of a
  non-empty run of digits is the number it denotes, \<open>Infinity\<close> included.
\<close>

definition parseAddress :: "string \<Rightarrow> (string \<times> int) option" where
  "parseAddress token =
     (let ds = rev (takeWhile is_digit (rev token));
          front = rev (dropWhile is_digit (rev token))
      in if ds = [] \<or> front = [] then None
         else if last front \<noteq> CHR '':'' then None
         else if list_ex (\<lambda>c. c = CHR 0x0A \<or> c = CHR 0x0D) (butlast front) then None
         else Some (strip_brackets (butlast front), to_double (decimal ds)))"

text \<open>One line of \<open>netstat -ano\<close>: the body of the loop of \<open>getWindowsProcesses\<close>.\<close>

definition windows_columns :: "string \<Rightarrow> string list \<Rightarrow> (string \<times> string) option" where
  "windows_columns proto parts =
     (if proto = ''TCP'' then
        (if length parts < 5 then None
         else if parts ! 3 \<noteq> ''LISTENING'' then None
         else Some (parts ! 1, parts ! 4))
      else if proto = ''UDP'' then Some (parts ! 1, parts ! 3)
      else None)"

definition windows_line :: "string \<Rightarrow> PortProcess option" where
  "windows_line rawLine =
     (let line = trim rawLine in
      if line = [] \<or> startsWith line ''Proto'' \<or> startsWith line ''Active'' then None
      else
        let parts = split_ws line in
        if length parts < 4 then None
        else
          let proto = toUpperCase (parts ! 0) in
          (case windows_columns proto parts of
             None \<Rightarrow> None
           | Some (localAddress, pidText) \<Rightarrow>
               (case parseInt pidText of
                  None \<Rightarrow> None
                | Some p \<Rightarrow>
                    (case parseAddress localAddress of
                       None \<Rightarrow> None
                     | Some (a, n) \<Rightarrow>
                         Some \<lparr>pid = p, port = n, protocol = proto, address = a,
                               command = None\<rparr>))))"

type_synonym run_command = "string \<Rightarrow> js_error + string"

definition windows_lines :: "string \<Rightarrow> PortProcess list" where
  "windows_lines output = List.map_filter windows_line (split_lines output)"

definition getWindowsProcesses :: "run_command \<Rightarrow> js_error + PortProcess list" where
  "getWindowsProcesses runCommand =
     (case runCommand ''netstat -ano'' of
        Inl e \<Rightarrow> Inl e
      | Inr output \<Rightarrow> Inr (windows_lines output))"

text \<open>
  The pattern \<open>/\b(TCP|UDP)\b/i\<close>, searched from the left. The first argument tells
  whether the character in front of the current position is a word character; the
  match is the text as it stands in the line.
\<close>

definition word_ahead :: "string \<Rightarrow> bool" where
  "word_ahead s = (case s of [] \<Rightarrow> False | c # _ \<Rightarrow> is_word c)"

fun protocolMatch :: "bool \<Rightarrow> string \<Rightarrow> string option" where
  "protocolMatch prev_word [] = None"
| "protocolMatch prev_word (c # cs) =
     (let m = take 3 (c # cs) in
      if \<not> prev_word \<and> (toUpperCase m = ''TCP'' \<or> toUpperCase m = ''UDP'') \<and>
         \<not> word_ahead (drop 3 (c # cs))
      then Some m
      else protocolMatch (is_word c) cs)"

text \<open>
  The pattern \<open>/([\w.*:[\]]+):(\d+)/\<close>, searched from the left. At one position the
  first group takes the longest run of its class and gives characters back one at a time
  until a colon and a digit follow; the second group then takes every digit.
\<close>

definition is_addr_char :: "char \<Rightarrow> bool" where
  "is_addr_char c = (is_word c \<or> c = CHR ''.'' \<or> c = CHR ''*'' \<or> c = CHR '':'' \<or>
                     c = CHR ''['' \<or> c = CHR '']'')"

fun addr_backtrack :: "nat \<Rightarrow> string \<Rightarrow> (string \<times> string) option" where
  "addr_backtrack 0 s = None"
| "addr_backtrack (Suc k) s =
     (case drop (Suc k) s of
        c # d # _ \<Rightarrow>
          if c = CHR '':'' \<and> is_digit d
          then Some (take (Suc k) s, takeWhile is_digit (drop (Suc (Suc k)) s))
          else addr_backtrack k s
      | _ \<Rightarrow> addr_backtrack k s)"

definition addr_match_at :: "string \<Rightarrow> (string \<times> string) option" where
  "addr_match_at s = addr_backtrack (length (takeWhile is_addr_char s)) s"

fun addressMatch :: "string \<Rightarrow> (string \<times> string) option" where
  "addressMatch [] = None"
| "addressMatch (c # cs) =
     (case addr_match_at (c # cs) of
        Some m \<Rightarrow> Some m
      | None \<Rightarrow> addressMatch cs)"

text \<open>One line of \<open>lsof\<close>: the body of the loop of \<open>getUnixProcesses\<close>.\<close>

definition unix_line :: "string \<Rightarrow> PortProcess option" where
  "unix_line line =
     (if trim line = [] then None
      else
        let proto = (case protocolMatch False line of
                       Some m \<Rightarrow> toUpperCase m
                     | None \<Rightarrow> ''TCP'');
            parts = split_ws (trim line)
        in (case parseInt_arg (at parts 1) of
              None \<Rightarrow> None
            | Some p \<Rightarrow>
                (case addressMatch line of
                   None \<Rightarrow> None
                 | Some (a, ds) \<Rightarrow>
                     Some \<lparr>pid = p, port = to_double (decimal ds), protocol = proto,
                           address = strip_brackets a, command = at parts 0\<rparr>)))"

text \<open>The lines after the first one (\<open>slice(1)\<close>), each decoded or skipped.\<close>

definition unix_lines :: "string \<Rightarrow> PortProcess list" where
  "unix_lines output = List.map_filter unix_line (tl (split_lines output))"

text \<open>\<open>String(error.stdout ?? '')\<close>\<close>

definition stdout_text :: "js_error \<Rightarrow> string" where
  "stdout_text e = (case err_stdout e of Some (Some s) \<Rightarrow> s | _ \<Rightarrow> [])"

definition getUnixProcesses :: "run_command \<Rightarrow> js_error + PortProcess list" where
  "getUnixProcesses runCommand =
     (case runCommand ''lsof -iTCP -sTCP:LISTEN -P -n'' of
        Inr output \<Rightarrow> Inr (unix_lines output)
      | Inl e \<Rightarrow>
          if is_Error e \<and> err_stdout e \<noteq> None then Inr (unix_lines (stdout_text e))
          else Inl e)"

section \<open>Listener repository\<close>

text \<open>
  The comparator handed to \<open>sort\<close>, and \<open>Array.prototype.sort\<close> itself, which is
  stable: an insertion sort that puts an element in front of the first one it does not
  follow. Only the sign of the comparator is used, and the difference of two doubles has
  the sign of the difference of their values.
\<close>

definition compare :: "PortProcess \<Rightarrow> PortProcess \<Rightarrow> int" where
  "compare a b = (if port a = port b then pid a - pid b else port a - port b)"

fun insert_by :: "('a \<Rightarrow> 'a \<Rightarrow> int) \<Rightarrow> 'a \<Rightarrow> 'a list \<Rightarrow> 'a list" where
  "insert_by cmp x [] = [x]"
| "insert_by cmp x (y # ys) = (if cmp x y \<le> 0 then x # y # ys else y # insert_by cmp x ys)"

definition sort_by :: "('a \<Rightarrow> 'a \<Rightarrow> int) \<Rightarrow> 'a list \<Rightarrow> 'a list" where
  "sort_by cmp xs = foldr (insert_by cmp) xs []"

definition listListeningProcesses ::
  "string \<Rightarrow> run_command \<Rightarrow> find_process \<Rightarrow> js_error + PortProcess list" where
  "listListeningProcesses platform runCommand findProcess =
     (case (if platform = ''win32'' then getWindowsProcesses runCommand
            else getUnixProcesses runCommand) of
        Inl e \<Rightarrow> Inl e
      | Inr base \<Rightarrow>
          (case enrichProcesses findProcess base of
             Inl e \<Rightarrow> Inl e
           | Inr enriched \<Rightarrow> Inr (sort_by compare enriched)))"

definition filterByPort ::
  "string \<Rightarrow> run_command \<Rightarrow> find_process \<Rightarrow> int \<Rightarrow> js_error + PortProcess list" where
  "filterByPort platform runCommand findProcess n =
     (case listListeningProcesses platform runCommand findProcess of
        Inl e \<Rightarrow> Inl e
      | Inr processes \<Rightarrow> Inr (filter (\<lambda>item. port item = n) processes))"

definition filterByPortRange ::
  "string \<Rightarrow> run_command \<Rightarrow> find_process \<Rightarrow> int \<Rightarrow> int \<Rightarrow> js_error + PortProcess list" where
  "filterByPortRange platform runCommand findProcess minPort maxPort =
     (if minPort > maxPort then Inr []
      else
        (case listListeningProcesses platform runCommand findProcess of
           Inl e \<Rightarrow> Inl e
         | Inr processes \<Rightarrow>
             Inr (filter (\<lambda>item. port item \<ge> minPort \<and> port item \<le> maxPort) processes)))"

section \<open>Termination service\<close>

text \<open>
  A number in a template literal: the decimal numeral of an integer, which is how
  integers below \<open>10^21\<close> are printed; the exponent form of larger numbers is not
  modelled.
\<close>

fun show_nat :: "nat \<Rightarrow> string" where
  "show_nat n = (if n < 10 then [''0123456789'' ! n]
                 else show_nat (n div 10) @ [''0123456789'' ! (n mod 10)])"

declare show_nat.simps [simp del]

definition show_int :: "int \<Rightarrow> string" where
  "show_int i = (if i < 0 then CHR ''-'' # show_nat (nat (- i)) else show_nat (nat i))"

text \<open>
  \<open>process.kill(pid, 'SIGTERM')\<close> either returns (\<open>None\<close>) or throws. On \<open>win32\<close>
  the external tool is run through \<open>execAsync\<close> and its rejection is passed on.
\<close>

type_synonym os_kill = "int \<Rightarrow> js_error option"

definition terminateProcess ::
  "string \<Rightarrow> run_command \<Rightarrow> os_kill \<Rightarrow> int \<Rightarrow> js_error + unit" where
  "terminateProcess platform execAsync kill p =
     (if platform = ''win32'' then
        (case execAsync (''taskkill /PID '' @ show_int p @ '' /T /F'') of
           Inl e \<Rightarrow> Inl e
         | Inr _ \<Rightarrow> Inr ())
      else
        (case kill p of
           None \<Rightarrow> Inr ()
         | Some e \<Rightarrow> if err_code e = Some ''ESRCH'' then Inr () else Inl e))"

definition killByPid ::
  "string \<Rightarrow> run_command \<Rightarrow> os_kill \<Rightarrow> int \<Rightarrow> js_error + unit" where
  "killByPid platform execAsync kill p = terminateProcess platform execAsync kill p"

record outcome =
  success :: "PortProcess list"
  failed :: "(PortProcess \<times> js_error) list"

text \<open>
  The callbacks of \<open>killByPort\<close> settle in some order; \<open>order\<close> lists the indices of
  the matches in that order, and each callback pushes its record onto one of the two
  arrays. \<open>attempt i\<close> is what \<open>terminateProcess\<close> gave for the \<open>i\<close>-th match.
\<close>

fun settle ::
  "PortProcess list \<Rightarrow> (nat \<Rightarrow> js_error + unit) \<Rightarrow> nat list \<Rightarrow> outcome \<Rightarrow> outcome" where
  "settle matches attempt [] out = out"
| "settle matches attempt (i # order) out =
     settle matches attempt order
       (case attempt i of
          Inr _ \<Rightarrow> out\<lparr>success := success out @ [matches ! i]\<rparr>
        | Inl e \<Rightarrow> out\<lparr>failed := failed out @ [(matches ! i, e)]\<rparr>)"

text \<open>
  The operating system may answer each attempt differently, so the tool and the signal
  call are given per attempt: \<open>execs i\<close> and \<open>kills i\<close> serve the \<open>i\<close>-th match.
\<close>

definition killByPort ::
  "string \<Rightarrow> run_command \<Rightarrow> find_process \<Rightarrow> (nat \<Rightarrow> run_command) \<Rightarrow> (nat \<Rightarrow> os_kill) \<Rightarrow>
   nat list \<Rightarrow> int \<Rightarrow> js_error + outcome" where
  "killByPort platform runCommand findProcess execs kills order n =
     (case filterByPort platform runCommand findProcess n of
        Inl e \<Rightarrow> Inl e
      | Inr matches \<Rightarrow>
          Inr (settle matches
                 (\<lambda>i. terminateProcess platform (execs i) (kills i) (pid (matches ! i)))
                 order \<lparr>success = [], failed = []\<rparr>))"

section \<open>Live monitor loop\<close>

definition makeKey :: "PortProcess \<Rightarrow> string" where
  "makeKey proc = protocol proc @ '':'' @ show_int (port proc) @ '':'' @ show_int (pid proc)"

text \<open>\<open>pieces.join(' ')\<close>\<close>

fun join_space :: "string list \<Rightarrow> string" where
  "join_space [] = []"
| "join_space [x] = x"
| "join_space (x # y # ys) = x @ '' '' @ join_space (y # ys)"

definition formatProcess :: "PortProcess \<Rightarrow> string" where
  "formatProcess processInfo =
     join_space
       ([protocol processInfo @ ''/'' @ show_int (port processInfo),
         ''pid:'' @ show_int (pid processInfo),
         ''addr:'' @ address processInfo]
        @ (case command processInfo of
             None \<Rightarrow> []
           | Some c \<Rightarrow> if c \<noteq> [] then [c] else []))"

definition fetchProcesses ::
  "string \<Rightarrow> run_command \<Rightarrow> find_process \<Rightarrow> int option \<Rightarrow> (int \<times> int) option \<Rightarrow>
   js_error + PortProcess list" where
  "fetchProcesses platform runCommand findProcess port_option portRange =
     (case port_option of
        Some n \<Rightarrow> filterByPort platform runCommand findProcess n
      | None \<Rightarrow>
          (case portRange of
             Some (mn, mx) \<Rightarrow> filterByPortRange platform runCommand findProcess mn mx
           | None \<Rightarrow> listListeningProcesses platform runCommand findProcess))"

text \<open>
  The \<open>forEach\<close> of \<open>renderOnce\<close>: one printed row per record, and the keys of this
  render collected in \<open>currentKeys\<close>; \<open>seenKeys\<close> is only read here.
\<close>

fun render_rows ::
  "string set \<Rightarrow> PortProcess list \<Rightarrow> string list \<times> string set \<Rightarrow> string list \<times> string set" where
  "render_rows seenKeys [] acc = acc"
| "render_rows seenKeys (proc # rest) (rows, currentKeys) =
     (let key = makeKey proc;
          isNew = (key \<notin> seenKeys);
          prefix = (if isNew then ''+'' else '' '')
      in render_rows seenKeys rest
           (rows @ [prefix @ '' '' @ formatProcess proc], insert key currentKeys))"

text \<open>
  One render, given what \<open>await fetchProcesses()\<close> settled to: the rows printed for the
  records (the banner with the wall-clock time is left out) and the new \<open>seenKeys\<close>.
  When the read fails the message is printed and \<open>seenKeys\<close> stays as it was.
\<close>

definition renderOnce ::
  "js_error + PortProcess list \<Rightarrow> string set \<Rightarrow> string list \<times> string set" where
  "renderOnce fetched seenKeys =
     (case fetched of
        Inl e \<Rightarrow> ([err_message e], seenKeys)
      | Inr processes \<Rightarrow>
          (let (rows, currentKeys) =
                 (if processes = [] then ([''No matching listening processes found.''], {})
                  else render_rows seenKeys processes ([], {}))
           in (rows, currentKeys)))"

section \<open>Predicates the properties are stated with\<close>

text \<open>The display order: by port, and by process id among equal ports.\<close>

definition by_port_pid :: "PortProcess \<Rightarrow> PortProcess \<Rightarrow> bool" where
  "by_port_pid a b = (port a < port b \<or> (port a = port b \<and> pid a \<le> pid b))"

text \<open>
  A line holds an address and port pair when somewhere in it a host character is
  followed by a colon and a digit.
\<close>

fun has_address_port :: "string \<Rightarrow> bool" where
  "has_address_port (a # b # c # r) =
     ((is_addr_char a \<and> b = CHR '':'' \<and> is_digit c) \<or> has_address_port (b # c # r))"
| "has_address_port _ = False"

text \<open>
  A token starts with a numeral when it starts with a digit, or with a sign and a digit;
  \<open>leading_digits\<close> is that numeral without its sign. A token is a decimal numeral when
  it is a non-empty run of digits.
\<close>

fun starts_with_numeral :: "string \<Rightarrow> bool" where
  "starts_with_numeral [] = False"
| "starts_with_numeral [c] = is_digit c"
| "starts_with_numeral (c # d # r) =
     (is_digit c \<or> ((c = CHR ''-'' \<or> c = CHR ''+'') \<and> is_digit d))"

definition leading_digits :: "string \<Rightarrow> string" where
  "leading_digits t =
     takeWhile is_digit (if t \<noteq> [] \<and> (hd t = CHR ''-'' \<or> hd t = CHR ''+'') then tl t else t)"

definition decimal_numeral :: "string \<Rightarrow> bool" where
  "decimal_numeral t = (t \<noteq> [] \<and> list_all is_digit t)"

section \<open>Fixtures\<close>

text \<open>Listener records, and process tables for the enricher.\<close>

definition listener_8080 :: PortProcess where
  "listener_8080 =
     \<lparr>pid = 9912, port = 8080, protocol = ''TCP'', address = ''0.0.0.0'', command = None\<rparr>"

definition listener_3000 :: PortProcess where
  "listener_3000 =
     \<lparr>pid = 4821, port = 3000, protocol = ''TCP'', address = ''*'', command = Some ''node''\<rparr>"

definition listener_4000 :: PortProcess where
  "listener_4000 =
     \<lparr>pid = 551, port = 4000, protocol = ''TCP'', address = ''*'', command = Some ''ruby''\<rparr>"

definition listener_9090 :: PortProcess where
  "listener_9090 =
     \<lparr>pid = 9912, port = 9090, protocol = ''TCP'', address = ''*'', command = Some ''node''\<rparr>"

definition listener_7 :: PortProcess where
  "listener_7 =
     \<lparr>pid = 77, port = 3000, protocol = ''TCP'', address = ''::1'', command = Some ''ruby''\<rparr>"

definition listener_udp :: PortProcess where
  "listener_udp =
     \<lparr>pid = 1234, port = 5353, protocol = ''UDP'', address = ''0.0.0.0'', command = None\<rparr>"

definition table_9912 :: find_process where
  "table_9912 p =
     (if p = 9912 then Inr [\<lparr>cmd = Some ''node server.js'', name = Some ''node''\<rparr>]
      else Inr [])"

definition empty_table :: find_process where
  "empty_table p = Inr []"

text \<open>Output of the Unix listing tool: a header, three listeners, not in display order.\<close>

definition lsof_listing :: string where
  "lsof_listing =
     ''COMMAND PID USER NODE NAME'' @ [CHR 0x0A] @
     ''node 9912 me TCP *:9090 (LISTEN)'' @ [CHR 0x0A] @
     ''node 4821 me TCP *:3000 (LISTEN)'' @ [CHR 0x0A] @
     ''ruby 77 me TCP [::1]:3000 (LISTEN)'' @ [CHR 0x0A]"

definition run_listing :: run_command where
  "run_listing c = Inr lsof_listing"

definition lsof_example :: string where
  "lsof_example = ''node 4821 ... TCP *:3000 (LISTEN)''"

definition lsof_mixed :: string where
  "lsof_mixed = ''node 12abc me TCP *:3000 (LISTEN)''"

definition listener_12 :: PortProcess where
  "listener_12 =
     \<lparr>pid = 12, port = 3000, protocol = ''TCP'', address = ''*'', command = Some ''node''\<rparr>"

definition lsof_overflow :: string where
  "lsof_overflow = ''node '' @ replicate 310 CHR ''9'' @ '' me TCP *:3000 (LISTEN)''"

definition lsof_garbled :: string where
  "lsof_garbled = ''node (deleted) TCP *:3000''"

definition lsof_short :: string where
  "lsof_short =
     ''COMMAND PID'' @ [CHR 0x0A] @ lsof_example @ [CHR 0x0A] @ lsof_garbled @ [CHR 0x0A]"

definition run_short :: run_command where
  "run_short c = Inr lsof_short"

text \<open>Failures of the listing tool: with output, with empty output, with no output at all.\<close>

definition failed_with_output :: js_error where
  "failed_with_output =
     \<lparr>is_Error = True, err_stdout = Some (Some lsof_listing), err_code = Some ''1'',
      err_message = ''Command failed''\<rparr>"

definition failed_silently :: js_error where
  "failed_silently =
     \<lparr>is_Error = True, err_stdout = Some (Some []), err_code = Some ''1'',
      err_message = ''Command failed''\<rparr>"

definition failed_to_run :: js_error where
  "failed_to_run =
     \<lparr>is_Error = True, err_stdout = None, err_code = None, err_message = ''spawn failed''\<rparr>"

text \<open>Lines of the Windows listing tool.\<close>

definition netstat_listening :: string where
  "netstat_listening = ''TCP 0.0.0.0:8080 0.0.0.0:0 LISTENING 9912''"

definition netstat_established :: string where
  "netstat_established = ''TCP 0.0.0.0:8080 0.0.0.0:0 ESTABLISHED 9912''"

definition netstat_udp :: string where
  "netstat_udp = ''UDP 0.0.0.0:5353 *:* 1234''"

definition netstat_header :: string where
  "netstat_header = ''  Proto  Local Address  Foreign Address  State  PID''"

definition netstat_lowercase :: string where
  "netstat_lowercase = ''tcp 0.0.0.0:8080 0.0.0.0:0 LISTENING 9912''"

definition netstat_text :: string where
  "netstat_text =
     netstat_header @ [CHR 0x0D, CHR 0x0A] @ netstat_listening @ [CHR 0x0D, CHR 0x0A] @
     netstat_established @ [CHR 0x0D, CHR 0x0A] @ netstat_udp @ [CHR 0x0D, CHR 0x0A]"

definition run_netstat :: run_command where
  "run_netstat c = Inr netstat_text"

definition run_lowercase :: run_command where
  "run_lowercase c = Inr netstat_lowercase"

text \<open>What \<open>process.kill\<close> throws for a process that is gone, and for one it may not signal.\<close>

definition gone :: js_error where
  "gone = \<lparr>is_Error = True, err_stdout = None, err_code = Some ''ESRCH'',
           err_message = ''kill ESRCH''\<rparr>"

definition denied :: js_error where
  "denied = \<lparr>is_Error = True, err_stdout = None, err_code = Some ''EPERM'',
             err_message = ''kill EPERM''\<rparr>"

definition kill_all_but_77 :: "nat \<Rightarrow> os_kill" where
  "kill_all_but_77 i p = (if p = 77 then Some denied else None)"

definition no_exec :: "nat \<Rightarrow> run_command" where
  "no_exec i c = Inr []"

section \<open>Properties of the identity enricher\<close>

lemma resolve_pid_thrown:
  "fst (resolve_pid findProcess p d) = (case findProcess p of Inl e \<Rightarrow> Some e | Inr _ \<Rightarrow> None)"
  by (simp add: resolve_pid_def split: sum.split)

lemma resolve_pid_map: "snd (resolve_pid findProcess p d) = d(p \<mapsto> [])"
  by (auto simp: resolve_pid_def split: sum.split list.split)

lemma resolve_all_map:
  "snd (resolve_all findProcess ps d) k = (if k \<in> set ps then Some [] else d k)"
proof (induction ps arbitrary: d)
  case Nil
  show ?case by simp
next
  case (Cons p ps)
  have step: "snd (resolve_all findProcess (p # ps) d) =
      snd (resolve_all findProcess ps (snd (resolve_pid findProcess p d)))"
    by (simp add: split_def Let_def)
  show ?case
    unfolding step Cons.IH by (simp add: resolve_pid_map)
qed

lemma resolve_all_thrown:
  "fst (resolve_all findProcess ps d) = None \<longleftrightarrow> (\<forall>p \<in> set ps. \<not> isl (findProcess p))"
proof (induction ps arbitrary: d)
  case Nil
  show ?case by simp
next
  case (Cons p ps)
  have step: "fst (resolve_all findProcess (p # ps) d) =
          (case fst (resolve_pid findProcess p d) of
             Some e \<Rightarrow> Some e
           | None \<Rightarrow> fst (resolve_all findProcess ps (snd (resolve_pid findProcess p d))))"
    by (simp add: split_def Let_def)
  show ?case
    unfolding step by (auto simp: Cons.IH resolve_pid_thrown split: sum.splits)
qed

lemma set_set_spread: "set (set_spread xs) = set xs"
proof (induction xs rule: set_spread.induct)
  case 1
  show ?case by simp
next
  case (2 x xs)
  then show ?case by auto
qed

lemma enrichProcesses_returns:
  "(\<exists>out. enrichProcesses findProcess base = Inr out) \<longleftrightarrow> (\<forall>item \<in> set base. \<not> isl (findProcess (pid item)))"
proof -
  let ?r = "resolve_all findProcess (set_spread (map pid base)) Map.empty"
  have "(\<exists>out. enrichProcesses findProcess base = Inr out) \<longleftrightarrow> fst ?r = None"
    by (cases ?r) (auto simp: enrichProcesses_def split: option.splits)
  then show ?thesis
    by (simp add: resolve_all_thrown set_set_spread)
qed

lemma enrichProcesses_Inr:
  assumes "enrichProcesses findProcess base = Inr out"
  shows "out = map (enrich_item (\<lambda>k. if k \<in> pid ` set base then Some [] else None)) base"
proof -
  let ?r = "resolve_all findProcess (set_spread (map pid base)) Map.empty"
  have m: "snd ?r = (\<lambda>k. if k \<in> pid ` set base then Some [] else None)"
    by (rule ext) (simp add: resolve_all_map set_set_spread)
  from assms have "out = map (enrich_item (snd ?r)) base"
    by (cases ?r) (auto simp: enrichProcesses_def split: option.splits)
  with m show ?thesis by simp
qed

text \<open>
  Whatever the process table answers, a record that came without a command leaves the
  enricher with the empty string as its command.
\<close>

lemma enrichProcesses_always_empty:
  assumes "enrichProcesses findProcess base = Inr out" and "i < length base"
    and "\<not> truthy (command (base ! i))"
  shows "command (out ! i) = Some []"
proof -
  from assms(1)
  have "out = map (enrich_item (\<lambda>k. if k \<in> pid ` set base then Some [] else None)) base"
    by (rule enrichProcesses_Inr)
  with assms(2,3) show ?thesis by (simp add: enrich_item_def)
qed

text \<open>
  C1 (evaluation at the failing input). The process table resolves pid 9912 to
  \<open>node server.js\<close> and does not know pid 1234. Both records come back with the empty
  string as their command: the \<open>finally\<close> block has overwritten the resolved text of
  the first, and has given the second a command where it should have none.
\<close>

theorem enrichProcesses_overwrites_resolved:
  "enrichProcesses table_9912 [listener_8080, listener_udp] =
     Inr [listener_8080\<lparr>command := Some []\<rparr>, listener_udp\<lparr>command := Some []\<rparr>]"
  by (simp add: enrichProcesses_def resolve_pid_def enrich_item_def truthy_def
      listener_8080_def listener_udp_def table_9912_def detail_text_def)

text \<open>
  C10. Whenever no process-table lookup rejects, \<open>enrichProcesses\<close> returns a sequence;
  any sequence it returns has the length of the input, at every index the pid, port,
  protocol and address of the input record, and a record whose command was already a
  non-empty string is returned as it came.
\<close>

theorem enrichProcesses_frame:
  "((\<forall>item \<in> set base. \<not> isl (findProcess (pid item))) \<longrightarrow> (\<exists>out. enrichProcesses findProcess base = Inr out)) \<and>
   (enrichProcesses findProcess base = Inr out \<longrightarrow>
      length out = length base \<and>
      (\<forall>i < length base.
         pid (out ! i) = pid (base ! i) \<and> port (out ! i) = port (base ! i) \<and>
         protocol (out ! i) = protocol (base ! i) \<and> address (out ! i) = address (base ! i) \<and>
         (truthy (command (base ! i)) \<longrightarrow> out ! i = base ! i)))"
proof (intro conjI impI)
  assume "\<forall>item \<in> set base. \<not> isl (findProcess (pid item))"
  then show "\<exists>out. enrichProcesses findProcess base = Inr out"
    by (simp add: enrichProcesses_returns)
next
  assume "enrichProcesses findProcess base = Inr out"
  then have "out = map (enrich_item (\<lambda>k. if k \<in> pid ` set base then Some [] else None)) base"
    by (rule enrichProcesses_Inr)
  then show "length out = length base" by simp
next
  assume "enrichProcesses findProcess base = Inr out"
  then have o: "out = map (enrich_item (\<lambda>k. if k \<in> pid ` set base then Some [] else None)) base"
    by (rule enrichProcesses_Inr)
  show "\<forall>i < length base.
         pid (out ! i) = pid (base ! i) \<and> port (out ! i) = port (base ! i) \<and>
         protocol (out ! i) = protocol (base ! i) \<and> address (out ! i) = address (base ! i) \<and>
         (truthy (command (base ! i)) \<longrightarrow> out ! i = base ! i)"
    by (simp add: o enrich_item_def)
qed

theorem enrichProcesses_frame_witness:
  "\<not> isl (table_9912 (pid listener_8080)) \<and> \<not> isl (table_9912 (pid listener_3000)) \<and>
   enrichProcesses table_9912 [listener_8080, listener_3000] =
     Inr [listener_8080\<lparr>command := Some []\<rparr>, listener_3000] \<and>
   truthy (command ([listener_8080, listener_3000] ! 1)) \<and>
   [listener_8080\<lparr>command := Some []\<rparr>, listener_3000] ! 1 = [listener_8080, listener_3000] ! 1 \<and>
   port ([listener_8080\<lparr>command := Some []\<rparr>, listener_3000] ! 0) = port listener_8080"
  using enrichProcesses_frame [of "[listener_8080, listener_3000]" table_9912
      "[listener_8080\<lparr>command := Some []\<rparr>, listener_3000]"]
  by (simp add: enrichProcesses_def resolve_pid_def enrich_item_def truthy_def
      listener_8080_def listener_3000_def table_9912_def detail_text_def)

section \<open>Properties of the raw listener parser\<close>

subsection \<open>Tokens and lines\<close>

lemma split_ws_first: "split_ws s ! 0 = takeWhile (\<lambda>c. \<not> is_space c) s"
  by (subst split_ws.simps) (simp add: Let_def)

lemma split_ws_empty: "split_ws [] = [[]]"
  by (subst split_ws.simps) simp

lemma split_ws_no_space: "t \<in> set (split_ws s) \<Longrightarrow> c \<in> set t \<Longrightarrow> \<not> is_space c"
proof (induction s arbitrary: t rule: split_ws.induct)
  case (1 s)
  let ?rest = "dropWhile (\<lambda>c. \<not> is_space c) s"
  from "1.prems"(1) have "t = takeWhile (\<lambda>c. \<not> is_space c) s \<or>
      (?rest \<noteq> [] \<and> t \<in> set (split_ws (dropWhile is_space ?rest)))"
    by (subst (asm) split_ws.simps) (auto simp: Let_def split: if_splits)
  then show ?case
  proof
    assume "t = takeWhile (\<lambda>c. \<not> is_space c) s"
    with "1.prems"(2) show ?thesis by (auto dest: set_takeWhileD)
  next
    assume "?rest \<noteq> [] \<and> t \<in> set (split_ws (dropWhile is_space ?rest))"
    with "1.IH" [OF refl refl _ _ "1.prems"(2)] show ?thesis by auto
  qed
qed

lemma split_lines_nonempty: "split_lines s \<noteq> []"
  by (induction s rule: split_lines.induct) (auto split: list.splits)

text \<open>Whatever the first line holds, only the lines after it are decoded.\<close>

lemma header_dropped:
  "CHR 0x0A \<notin> set h \<Longrightarrow> tl (split_lines (h @ CHR 0x0A # rest)) = split_lines rest"
proof (induction h rule: split_lines.induct)
  case 1
  show ?case by (cases rest) simp_all
next
  case (2 c)
  have b: "tl (split_lines (CHR 0x0A # rest)) = split_lines rest" by (cases rest) simp_all
  from 2 show ?case
    using b split_lines_nonempty [of "CHR 0x0A # rest"]
    by (auto split: list.splits)
next
  case (3 c d cs)
  then have "tl (split_lines (d # cs @ CHR 0x0A # rest)) = split_lines rest" by auto
  with 3 show ?case
    using split_lines_nonempty [of "d # cs @ CHR 0x0A # rest"]
    by (auto split: list.splits)
qed

text \<open>A text without a line feed is one line, which is then the header.\<close>

lemma split_lines_single: "CHR 0x0A \<notin> set s \<Longrightarrow> split_lines s = [s]"
  by (induction s rule: split_lines.induct) auto

subsection \<open>Numbers\<close>

lemma sign_not_digit: "\<not> is_digit CHR ''-''" "\<not> is_digit CHR ''+''"
  by (simp_all add: is_digit_def)

lemma to_double_small: "n < 9007199254740992 \<Longrightarrow> to_double n = n"
  by (simp add: to_double_def)

lemma starts_with_numeral_iff: "starts_with_numeral t \<longleftrightarrow> leading_digits t \<noteq> []"
  by (cases t rule: starts_with_numeral.cases) (auto simp: leading_digits_def sign_not_digit)

text \<open>
  On a token without white space, a finite process id is read exactly when the token
  starts with a numeral whose number is finite.
\<close>

lemma parseInt_finite:
  assumes "\<forall>c \<in> set t. \<not> is_space c"
  shows "parseInt t \<noteq> None \<longleftrightarrow>
           starts_with_numeral t \<and> to_double (decimal (leading_digits t)) < Infinity"
proof -
  have d: "dropWhile is_space t = t"
    using assms by (cases t) auto
  have "parseInt t \<noteq> None \<longleftrightarrow>
          leading_digits t \<noteq> [] \<and> to_double (decimal (leading_digits t)) < Infinity"
    by (auto simp: parseInt_def leading_digits_def d Let_def)
  then show ?thesis by (simp add: starts_with_numeral_iff)
qed

text \<open>A decimal numeral below \<open>2^53\<close> is read as its value.\<close>

lemma parseInt_decimal:
  assumes "decimal_numeral t" and "decimal t < 9007199254740992"
  shows "parseInt t = Some (decimal t)"
proof -
  from assms(1) obtain c r where t: "t = c # r" and c: "is_digit c" and all: "list_all is_digit t"
    by (cases t) (auto simp: decimal_numeral_def)
  from c have "\<not> is_space c" "c \<noteq> CHR ''-''" "c \<noteq> CHR ''+''"
    by (auto simp: is_space_def is_digit_def)
  then have "dropWhile is_space t = t" and "hd t \<noteq> CHR ''-''" and "hd t \<noteq> CHR ''+''"
    by (simp_all add: t)
  moreover have "takeWhile is_digit t = t"
    using all by (simp add: list_all_iff)
  moreover have "(decimal t < Infinity)"
    using assms(2) by (simp add: Infinity_def)
  ultimately show ?thesis
    using assms(2) t by (simp add: parseInt_def Let_def to_double_small)
qed

lemma parseInt_undefined: "parseInt ''undefined'' = None"
  by (simp add: parseInt_def is_space_def is_digit_def)

lemma second_token_finite:
  "parseInt_arg (at (split_ws s) 1) \<noteq> None \<longleftrightarrow>
     (\<exists>t. at (split_ws s) 1 = Some t \<and> starts_with_numeral t \<and>
          to_double (decimal (leading_digits t)) < Infinity)"
proof (cases "at (split_ws s) 1")
  case None
  then show ?thesis by (simp add: parseInt_arg_def parseInt_undefined)
next
  case (Some t)
  then have "t \<in> set (split_ws s)" by (auto simp: at_def split: if_splits)
  then have "\<forall>c \<in> set t. \<not> is_space c" by (auto dest: split_ws_no_space)
  then have "parseInt t \<noteq> None \<longleftrightarrow>
      starts_with_numeral t \<and> to_double (decimal (leading_digits t)) < Infinity"
    by (rule parseInt_finite)
  with Some show ?thesis by (simp add: parseInt_arg_def)
qed

lemma blank_no_pid: "trim line = [] \<Longrightarrow> parseInt_arg (at (split_ws (trim line)) 1) = None"
  by (simp add: split_ws_empty at_def parseInt_arg_def parseInt_undefined)

subsection \<open>The two patterns of the Unix parser\<close>

lemma protocolMatch_upper:
  "protocolMatch w s = Some m \<Longrightarrow> toUpperCase m = ''TCP'' \<or> toUpperCase m = ''UDP''"
  by (induction w s rule: protocolMatch.induct) (auto simp: Let_def split: if_splits)

lemma has_address_port_Cons: "has_address_port s \<Longrightarrow> has_address_port (x # s)"
  by (cases s rule: has_address_port.cases) auto

lemma has_address_port_append: "has_address_port s \<Longrightarrow> has_address_port (pre @ s)"
  by (induction pre) (auto intro: has_address_port_Cons)

lemma addr_backtrack_found:
  assumes "addr_backtrack k s = Some m"
  shows "\<exists>j c d r. 1 \<le> j \<and> j \<le> k \<and> drop j s = c # d # r \<and> c = CHR '':'' \<and> is_digit d"
  using assms
proof (induction k)
  case 0
  then show ?case by simp
next
  case (Suc k)
  show ?case
  proof (cases "\<exists>c d r. drop (Suc k) s = c # d # r \<and> c = CHR '':'' \<and> is_digit d")
    case True
    then show ?thesis by (metis le_refl le_add1 plus_1_eq_Suc)
  next
    case False
    then have "addr_backtrack (Suc k) s = addr_backtrack k s"
      by (auto split: list.splits)
    with Suc obtain j c d r
      where "1 \<le> j" "j \<le> k" "drop j s = c # d # r" "c = CHR '':''" "is_digit d"
      by auto
    then show ?thesis by (metis le_Suc_eq)
  qed
qed

lemma addr_backtrack_hit:
  assumes "1 \<le> k" and "drop 1 s = CHR '':'' # d # r" and "is_digit d"
  shows "addr_backtrack k s \<noteq> None"
  using assms(1)
proof (induction k)
  case 0
  then show ?case by simp
next
  case (Suc k)
  show ?case
  proof (cases "k = 0")
    case True
    with assms show ?thesis by simp
  next
    case False
    with Suc have "addr_backtrack k s \<noteq> None" by simp
    then show ?thesis by (auto split: list.splits)
  qed
qed

lemma addr_match_at_sound:
  assumes "addr_match_at s = Some m"
  shows "has_address_port s"
proof -
  let ?k = "length (takeWhile is_addr_char s)"
  from assms obtain j d r
    where j: "1 \<le> j" "j \<le> ?k" and dr: "drop j s = CHR '':'' # d # r" and d: "is_digit d"
    unfolding addr_match_at_def by (metis addr_backtrack_found)
  from j have lt: "j - 1 < ?k" by simp
  then have cls: "is_addr_char (s ! (j - 1))"
    by (metis nth_mem set_takeWhileD takeWhile_nth)
  from lt have len: "j - 1 < length s"
    by (meson length_takeWhile_le less_le_trans)
  have "drop (j - 1) s = s ! (j - 1) # drop j s"
    using len j by (metis Cons_nth_drop_Suc Suc_pred' less_eq_Suc_le One_nat_def)
  with dr have "drop (j - 1) s = s ! (j - 1) # CHR '':'' # d # r" by simp
  with cls d have "has_address_port (drop (j - 1) s)" by simp
  then have "has_address_port (take (j - 1) s @ drop (j - 1) s)"
    by (rule has_address_port_append)
  then show ?thesis by simp
qed

lemma addressMatch_sound: "addressMatch s = Some m \<Longrightarrow> has_address_port s"
proof (induction s)
  case Nil
  then show ?case by simp
next
  case (Cons c cs)
  show ?case
  proof (cases "addr_match_at (c # cs)")
    case None
    with Cons show ?thesis by (auto intro: has_address_port_Cons)
  next
    case (Some m')
    then show ?thesis by (rule addr_match_at_sound)
  qed
qed

lemma addressMatch_complete: "has_address_port s \<Longrightarrow> addressMatch s \<noteq> None"
proof (induction s rule: has_address_port.induct)
  case (1 a b c r)
  show ?case
  proof (cases "is_addr_char a \<and> b = CHR '':'' \<and> is_digit c")
    case True
    then have "1 \<le> length (takeWhile is_addr_char (a # b # c # r))" by simp
    with True have "addr_match_at (a # b # c # r) \<noteq> None"
      unfolding addr_match_at_def by (intro addr_backtrack_hit [where d = c and r = r]) auto
    then show ?thesis by auto
  next
    case False
    with 1 have "addressMatch (b # c # r) \<noteq> None" by auto
    then show ?thesis by (auto split: option.splits)
  qed
qed auto

lemma addressMatch_iff: "addressMatch s \<noteq> None \<longleftrightarrow> has_address_port s"
proof
  assume "addressMatch s \<noteq> None"
  then obtain m where "addressMatch s = Some m" by auto
  then show "has_address_port s" by (rule addressMatch_sound)
next
  assume "has_address_port s"
  then show "addressMatch s \<noteq> None" by (rule addressMatch_complete)
qed

subsection \<open>Evaluation of the fixtures\<close>

lemma lsof_listing_records: "unix_lines lsof_listing = [listener_9090, listener_3000, listener_7]"
  by code_simp

lemma lsof_example_record: "unix_line lsof_example = Some listener_3000"
  by code_simp

lemma lsof_example_tokens:
  "split_ws (trim lsof_example) = [''node'', ''4821'', ''...'', ''TCP'', ''*:3000'', ''(LISTEN)'']"
  by code_simp

lemma lsof_garbled_tokens: "split_ws (trim lsof_garbled) = [''node'', ''(deleted)'', ''TCP'', ''*:3000'']"
  by code_simp

lemma lsof_garbled_skipped: "unix_line lsof_garbled = None"
  by code_simp

lemma lsof_short_records: "getUnixProcesses run_short = Inr [listener_3000]"
  by code_simp

lemma lsof_example_address: "has_address_port lsof_example"
  by code_simp

lemma netstat_listening_tokens:
  "split_ws (trim netstat_listening) =
     [''TCP'', ''0.0.0.0:8080'', ''0.0.0.0:0'', ''LISTENING'', ''9912'']"
  by code_simp

lemma netstat_established_tokens:
  "split_ws (trim netstat_established) =
     [''TCP'', ''0.0.0.0:8080'', ''0.0.0.0:0'', ''ESTABLISHED'', ''9912'']"
  by code_simp

lemma netstat_udp_tokens:
  "split_ws (trim netstat_udp) = [''UDP'', ''0.0.0.0:5353'', ''*:*'', ''1234'']"
  by code_simp

lemma netstat_header_tokens:
  "split_ws (trim netstat_header) ! 0 = ''Proto''"
  by code_simp

lemma netstat_lowercase_tokens:
  "split_ws (trim netstat_lowercase) ! 0 = ''tcp''"
  by code_simp

lemma netstat_columns:
  "parseInt ''9912'' = Some 9912" "parseAddress ''0.0.0.0:8080'' = Some (''0.0.0.0'', 8080)"
  "parseInt ''1234'' = Some 1234" "parseAddress ''0.0.0.0:5353'' = Some (''0.0.0.0'', 5353)"
  "toUpperCase ''TCP'' = ''TCP''" "toUpperCase ''UDP'' = ''UDP''" "toUpperCase ''Proto'' = ''PROTO''"
  by code_simp+

lemma netstat_lines:
  "windows_line netstat_listening = Some listener_8080"
  "windows_line netstat_established = None"
  "windows_line netstat_udp = Some listener_udp"
  "windows_line netstat_header = None"
  by code_simp+

lemma netstat_text_records: "getWindowsProcesses run_netstat = Inr [listener_8080, listener_udp]"
  by code_simp

lemma netstat_lowercase_records: "getWindowsProcesses run_lowercase = Inr [listener_8080]"
  by code_simp

lemma lsof_mixed_tokens:
  "split_ws (trim lsof_mixed) = [''node'', ''12abc'', ''me'', ''TCP'', ''*:3000'', ''(LISTEN)'']"
  by code_simp

lemma lsof_second_tokens:
  "at (split_ws (trim lsof_example)) 1 = Some ''4821''"
  "at (split_ws (trim lsof_garbled)) 1 = Some ''(deleted)''"
  "at (split_ws (trim lsof_mixed)) 1 = Some ''12abc''"
  by (simp_all add: lsof_example_tokens lsof_garbled_tokens lsof_mixed_tokens at_def)

lemma lsof_small_facts:
  "starts_with_numeral ''4821''" "decimal_numeral ''4821''" "decimal ''4821'' = 4821"
  "to_double (decimal (leading_digits ''4821'')) < Infinity"
  "unix_line [] = None" "\<not> starts_with_numeral ''(deleted)''"
  by code_simp+

lemma lsof_mixed_facts:
  "\<not> decimal_numeral ''12abc''" "starts_with_numeral ''12abc''" "leading_digits ''12abc'' = ''12''"
  "unix_line lsof_mixed = Some listener_12"
  by code_simp+

text \<open>A numeral above \<open>2^53\<close> is rounded, and one that overflows is not a process id.\<close>

lemma parseInt_rounds: "parseInt ''9007199254740993'' = Some 9007199254740992"
  by code_simp

lemma lsof_overflow_skipped: "unix_line lsof_overflow = None"
  by code_simp

lemma run_short_text:
  "run_short ''lsof -iTCP -sTCP:LISTEN -P -n'' =
     Inr (''COMMAND PID'' @ CHR 0x0A # lsof_example @ [CHR 0x0A] @ lsof_garbled @ [CHR 0x0A])"
  by (simp add: run_short_def lsof_short_def)

subsection \<open>The Unix listing\<close>

text \<open>
  C6 (counterexample). The second token of the line is \<open>12abc\<close>, which is not a decimal
  numeral, and the line is decoded all the same, with process id 12:
  \<open>Number.parseInt\<close> reads the digits a token starts with and ignores what follows.
\<close>

theorem unix_line_prefix_counterexample:
  "at (split_ws (trim lsof_mixed)) 1 = Some ''12abc'' \<and> \<not> decimal_numeral ''12abc'' \<and>
   unix_line lsof_mixed = Some listener_12"
  by (intro conjI lsof_second_tokens lsof_mixed_facts)

text \<open>
  C6 (amended). A line of the Unix listing is decoded to a record exactly when it holds
  an address and port pair (a host character, a colon and a digit in a row) and its
  second token starts with a numeral (a digit, or a sign and a digit) that denotes a
  finite number; every other line, an empty or a garbled one included, is skipped. The
  record carries the process id read from the start of the second token, which is the
  value of the token when the token is a decimal numeral below \<open>2^53\<close>, the first token
  as its command, the protocol \<open>TCP\<close> or \<open>UDP\<close>, and the address and port the pattern
  matched, brackets stripped. The first line of the text, the header, never yields a
  record, and the call returns the records of the lines after it, one per decoded line,
  in order; a text of one line gives no record. The line
  \<open>node 4821 ... TCP *:3000 (LISTEN)\<close> yields pid 4821, port 3000, protocol TCP and
  address \<open>*\<close>.
\<close>

theorem unix_line_records:
  assumes "parts = split_ws (trim line)"
  shows
   "(unix_line line \<noteq> None \<longleftrightarrow>
       has_address_port line \<and>
       (\<exists>t. at parts 1 = Some t \<and> starts_with_numeral t \<and>
            to_double (decimal (leading_digits t)) < Infinity)) \<and>
    (unix_line line = Some r \<longrightarrow>
       parseInt_arg (at parts 1) = Some (pid r) \<and> command r = at parts 0 \<and>
       (protocol r = ''TCP'' \<or> protocol r = ''UDP'') \<and>
       (\<exists>a ds. addressMatch line = Some (a, ds) \<and> address r = strip_brackets a \<and>
                port r = to_double (decimal ds))) \<and>
    (unix_line line = Some r \<and> at parts 1 = Some t \<and> decimal_numeral t \<and>
       decimal t < 9007199254740992 \<longrightarrow> pid r = decimal t) \<and>
    (runCommand ''lsof -iTCP -sTCP:LISTEN -P -n'' = Inr (header @ CHR 0x0A # rest) \<and>
       CHR 0x0A \<notin> set header \<longrightarrow>
       getUnixProcesses runCommand = Inr (List.map_filter unix_line (split_lines rest))) \<and>
    (runCommand ''lsof -iTCP -sTCP:LISTEN -P -n'' = Inr header \<and> CHR 0x0A \<notin> set header \<longrightarrow>
       getUnixProcesses runCommand = Inr [])"
proof -
  have A: "unix_line line \<noteq> None \<longleftrightarrow>
       has_address_port line \<and>
       (\<exists>t. at parts 1 = Some t \<and> starts_with_numeral t \<and>
            to_double (decimal (leading_digits t)) < Infinity)"
  proof (cases "trim line = []")
    case True
    then have "parseInt_arg (at parts 1) = None"
      unfolding assms by (rule blank_no_pid)
    with True show ?thesis
      using second_token_finite [of "trim line"] assms by (simp add: unix_line_def)
  next
    case False
    then have "unix_line line \<noteq> None \<longleftrightarrow>
        addressMatch line \<noteq> None \<and> parseInt_arg (at parts 1) \<noteq> None"
      using assms by (auto simp: unix_line_def Let_def split: option.splits)
    then show ?thesis
      using second_token_finite [of "trim line"] addressMatch_iff [of line] assms by simp
  qed
  have B: "parseInt_arg (at parts 1) = Some (pid r) \<and> command r = at parts 0 \<and>
       (protocol r = ''TCP'' \<or> protocol r = ''UDP'') \<and>
       (\<exists>a ds. addressMatch line = Some (a, ds) \<and> address r = strip_brackets a \<and>
                port r = to_double (decimal ds))"
    if u: "unix_line line = Some r"
  proof -
    from u have ne: "trim line \<noteq> []" by (auto simp: unix_line_def split: if_splits)
    from u ne obtain p a ds where p: "parseInt_arg (at parts 1) = Some p"
      and m: "addressMatch line = Some (a, ds)"
      and r: "r = \<lparr>pid = p, port = to_double (decimal ds),
                    protocol = (case protocolMatch False line of
                                  Some m \<Rightarrow> toUpperCase m | None \<Rightarrow> ''TCP''),
                    address = strip_brackets a, command = at parts 0\<rparr>"
      using assms by (auto simp: unix_line_def Let_def split: option.splits)
    have "protocol r = ''TCP'' \<or> protocol r = ''UDP''"
      using r protocolMatch_upper [of False line] by (auto split: option.splits)
    with p m r show ?thesis by simp
  qed
  have B': "pid r = decimal t"
    if u: "unix_line line = Some r" and t: "at parts 1 = Some t" and n: "decimal_numeral t"
      and v: "decimal t < 9007199254740992"
  proof -
    from B [OF u] t have "parseInt t = Some (pid r)" by (simp add: parseInt_arg_def)
    with parseInt_decimal [OF n v] show ?thesis by simp
  qed
  have C: "getUnixProcesses runCommand = Inr (List.map_filter unix_line (split_lines rest))"
    if "runCommand ''lsof -iTCP -sTCP:LISTEN -P -n'' = Inr (header @ CHR 0x0A # rest)"
      and "CHR 0x0A \<notin> set header"
    using that by (simp add: getUnixProcesses_def unix_lines_def header_dropped)
  have D: "getUnixProcesses runCommand = Inr []"
    if "runCommand ''lsof -iTCP -sTCP:LISTEN -P -n'' = Inr header" and "CHR 0x0A \<notin> set header"
    using that
    by (simp add: getUnixProcesses_def unix_lines_def split_lines_single List.map_filter_simps)
  from A B B' C D show ?thesis by blast
qed

theorem unix_line_records_witness:
  "has_address_port lsof_example \<and>
   at (split_ws (trim lsof_example)) 1 = Some ''4821'' \<and> starts_with_numeral ''4821'' \<and>
   to_double (decimal (leading_digits ''4821'')) < Infinity \<and>
   decimal_numeral ''4821'' \<and> decimal ''4821'' = 4821 \<and>
   unix_line lsof_example = Some listener_3000 \<and> pid listener_3000 = 4821 \<and>
   at (split_ws (trim lsof_garbled)) 1 = Some ''(deleted)'' \<and>
   \<not> starts_with_numeral ''(deleted)'' \<and> unix_line lsof_garbled = None \<and>
   unix_line [] = None \<and> unix_line lsof_overflow = None \<and>
   run_short ''lsof -iTCP -sTCP:LISTEN -P -n'' =
     Inr (''COMMAND PID'' @ CHR 0x0A # lsof_example @ [CHR 0x0A] @ lsof_garbled @ [CHR 0x0A]) \<and>
   getUnixProcesses run_short = Inr [listener_3000]"
proof -
  note t = unix_line_records [OF refl, of lsof_example listener_3000 "''4821''" run_short
      "''COMMAND PID''" "lsof_example @ [CHR 0x0A] @ lsof_garbled @ [CHR 0x0A]"]
  have "unix_line lsof_example \<noteq> None"
    by (simp add: lsof_example_record)
  then have found: "has_address_port lsof_example"
    using t by blast
  have "decimal ''4821'' < 9007199254740992"
    by (simp add: lsof_small_facts)
  then have "pid listener_3000 = decimal ''4821''"
    using t lsof_example_record lsof_second_tokens(1) lsof_small_facts(2) by blast
  then have pid_value: "pid listener_3000 = 4821"
    by (simp add: lsof_small_facts)
  show ?thesis
    by (intro conjI found pid_value lsof_second_tokens lsof_small_facts lsof_example_record
        lsof_garbled_skipped lsof_overflow_skipped run_short_text lsof_short_records)
qed

text \<open>
  C2 (counterexample). The tool fails and has printed nothing: the failure carries an
  empty \<open>stdout\<close>. The call does not fail; it returns the empty sequence.
\<close>

theorem getUnixProcesses_silent_failure_counterexample:
  "is_Error failed_silently \<and> stdout_text failed_silently = [] \<and>
   getUnixProcesses (\<lambda>c. Inl failed_silently) = Inr []"
  by (simp add: failed_silently_def stdout_text_def getUnixProcesses_def unix_lines_def
      List.map_filter_simps)

text \<open>
  C2 (amended). When the listing tool fails with an \<open>Error\<close> that carries a \<open>stdout\<close>
  property, that text (empty when the tool printed nothing) is parsed and the call
  succeeds with the records decoded from it. The call fails exactly when the tool
  invocation fails with a value that is not an \<open>Error\<close> or carries no \<open>stdout\<close>
  property.
\<close>

theorem getUnixProcesses_fatal_iff:
  "(isl (getUnixProcesses runCommand) \<longleftrightarrow>
      (\<exists>e. runCommand ''lsof -iTCP -sTCP:LISTEN -P -n'' = Inl e \<and>
           \<not> (is_Error e \<and> err_stdout e \<noteq> None))) \<and>
   (runCommand ''lsof -iTCP -sTCP:LISTEN -P -n'' = Inl e \<and> is_Error e \<and> err_stdout e \<noteq> None \<longrightarrow>
      getUnixProcesses runCommand = Inr (unix_lines (stdout_text e)))"
  by (auto simp: getUnixProcesses_def split: sum.splits)

theorem getUnixProcesses_fatal_iff_witness:
  "is_Error failed_with_output \<and> err_stdout failed_with_output \<noteq> None \<and>
   getUnixProcesses (\<lambda>c. Inl failed_with_output) = Inr [listener_9090, listener_3000, listener_7] \<and>
   err_stdout failed_to_run = None \<and>
   getUnixProcesses (\<lambda>c. Inl failed_to_run) = Inl failed_to_run"
  using getUnixProcesses_fatal_iff [of "\<lambda>c. Inl failed_with_output" failed_with_output]
    getUnixProcesses_fatal_iff [of "\<lambda>c. Inl failed_to_run" failed_to_run]
  by (simp add: failed_with_output_def failed_to_run_def stdout_text_def getUnixProcesses_def
      lsof_listing_records)


subsection \<open>The Windows listing\<close>

lemma first_piece_upper:
  assumes "s = c # s'" and "\<not> is_space c"
  shows "toUpperCase (split_ws s ! 0) = to_upper c # toUpperCase (takeWhile (\<lambda>c. \<not> is_space c) s')"
  using assms by (simp add: split_ws_first toUpperCase_def)

lemma header_not_protocol:
  assumes "startsWith s ''Proto'' \<or> startsWith s ''Active''"
  shows "toUpperCase (split_ws s ! 0) \<noteq> ''TCP'' \<and> toUpperCase (split_ws s ! 0) \<noteq> ''UDP''"
proof -
  from assms obtain c s' where s: "s = c # s'" and c: "c = CHR ''P'' \<or> c = CHR ''A''"
    by (cases s) (auto simp: startsWith_def)
  from c have "\<not> is_space c" and "to_upper c \<noteq> CHR ''T''" and "to_upper c \<noteq> CHR ''U''"
    by (auto simp: is_space_def to_upper_def)
  with first_piece_upper [OF s] show ?thesis by simp
qed

lemma blank_not_protocol:
  "toUpperCase (split_ws [] ! 0) \<noteq> ''TCP'' \<and> toUpperCase (split_ws [] ! 0) \<noteq> ''UDP''"
  by (simp add: split_ws_empty toUpperCase_def)

lemma run_netstat_text: "run_netstat ''netstat -ano'' = Inr netstat_text"
  by (simp add: run_netstat_def)

text \<open>
  C5 (counterexample). The first token of the line is \<open>tcp\<close>, which is neither \<open>TCP\<close>
  nor \<open>UDP\<close>, and the line is decoded all the same: the parser compares the first token
  after converting it to upper case.
\<close>

theorem windows_lowercase_counterexample:
  "split_ws (trim netstat_lowercase) ! 0 = ''tcp'' \<and> ''tcp'' \<noteq> ''TCP'' \<and> ''tcp'' \<noteq> ''UDP'' \<and>
   getWindowsProcesses run_lowercase = Inr [listener_8080]"
  by (simp add: netstat_lowercase_tokens netstat_lowercase_records)

text \<open>
  C5 (amended). With the first token of a line converted to upper case: a well-formed
  TCP line (five tokens, a process id that parses, a local address that splits into
  address and port) is included if and only if its state column equals \<open>LISTENING\<close>, and
  then yields exactly the record of its process id, port and address; every well-formed
  UDP line (four tokens) is included; every line whose first token in upper case is
  neither \<open>TCP\<close> nor \<open>UDP\<close> is excluded; and the call returns the records of the lines,
  one per included line, in order. The line \<open>TCP 0.0.0.0:8080 0.0.0.0:0 LISTENING 9912\<close>
  yields pid 9912, port 8080, protocol TCP, address \<open>0.0.0.0\<close>; with state
  \<open>ESTABLISHED\<close> it yields nothing.
\<close>

theorem windows_line_included:
  assumes "parts = split_ws (trim rawLine)" and "proto = toUpperCase (parts ! 0)"
  shows
   "(proto = ''TCP'' \<and> 5 \<le> length parts \<and> parseInt (parts ! 4) = Some p \<and>
       parseAddress (parts ! 1) = Some (a, n) \<longrightarrow>
       windows_line rawLine =
         (if parts ! 3 = ''LISTENING''
          then Some \<lparr>pid = p, port = n, protocol = ''TCP'', address = a, command = None\<rparr>
          else None)) \<and>
    (proto = ''UDP'' \<and> 4 \<le> length parts \<and> parseInt (parts ! 3) = Some p \<and>
       parseAddress (parts ! 1) = Some (a, n) \<longrightarrow>
       windows_line rawLine =
         Some \<lparr>pid = p, port = n, protocol = ''UDP'', address = a, command = None\<rparr>) \<and>
    (proto \<noteq> ''TCP'' \<and> proto \<noteq> ''UDP'' \<longrightarrow> windows_line rawLine = None) \<and>
    (runCommand ''netstat -ano'' = Inr output \<longrightarrow>
       getWindowsProcesses runCommand = Inr (List.map_filter windows_line (split_lines output)))"
proof -
  let ?line = "trim rawLine"
  have skip: "proto \<noteq> ''TCP'' \<and> proto \<noteq> ''UDP''"
    if "?line = [] \<or> startsWith ?line ''Proto'' \<or> startsWith ?line ''Active''"
    using that assms header_not_protocol [of ?line] blank_not_protocol by auto
  have tcp: "windows_line rawLine =
         (if parts ! 3 = ''LISTENING''
          then Some \<lparr>pid = p, port = n, protocol = ''TCP'', address = a, command = None\<rparr>
          else None)"
    if "proto = ''TCP''" "5 \<le> length parts" "parseInt (parts ! 4) = Some p"
       "parseAddress (parts ! 1) = Some (a, n)"
  proof -
    from skip that(1)
    have "\<not> (?line = [] \<or> startsWith ?line ''Proto'' \<or> startsWith ?line ''Active'')"
      by auto
    with that assms show ?thesis
      by (simp add: windows_line_def windows_columns_def Let_def)
  qed
  have udp: "windows_line rawLine =
         Some \<lparr>pid = p, port = n, protocol = ''UDP'', address = a, command = None\<rparr>"
    if "proto = ''UDP''" "4 \<le> length parts" "parseInt (parts ! 3) = Some p"
       "parseAddress (parts ! 1) = Some (a, n)"
  proof -
    from skip that(1)
    have "\<not> (?line = [] \<or> startsWith ?line ''Proto'' \<or> startsWith ?line ''Active'')"
      by auto
    with that assms show ?thesis
      by (simp add: windows_line_def windows_columns_def Let_def)
  qed
  have other: "windows_line rawLine = None" if "proto \<noteq> ''TCP''" "proto \<noteq> ''UDP''"
    using that assms by (simp add: windows_line_def windows_columns_def Let_def)
  have whole: "getWindowsProcesses runCommand = Inr (List.map_filter windows_line (split_lines output))"
    if "runCommand ''netstat -ano'' = Inr output"
    using that by (simp add: getWindowsProcesses_def windows_lines_def)
  from tcp udp other whole show ?thesis by blast
qed

theorem windows_line_included_witness:
  "toUpperCase (split_ws (trim netstat_listening) ! 0) = ''TCP'' \<and>
   split_ws (trim netstat_listening) ! 3 = ''LISTENING'' \<and>
   windows_line netstat_listening = Some listener_8080 \<and>
   split_ws (trim netstat_established) ! 3 = ''ESTABLISHED'' \<and>
   windows_line netstat_established = None \<and>
   toUpperCase (split_ws (trim netstat_udp) ! 0) = ''UDP'' \<and>
   windows_line netstat_udp = Some listener_udp \<and>
   toUpperCase (split_ws (trim netstat_header) ! 0) = ''PROTO'' \<and>
   windows_line netstat_header = None \<and>
   run_netstat ''netstat -ano'' = Inr netstat_text \<and>
   getWindowsProcesses run_netstat = Inr [listener_8080, listener_udp]"
proof -
  have tokens: "toUpperCase (split_ws (trim netstat_listening) ! 0) = ''TCP''"
    "split_ws (trim netstat_listening) ! 3 = ''LISTENING''"
    "split_ws (trim netstat_established) ! 3 = ''ESTABLISHED''"
    "toUpperCase (split_ws (trim netstat_udp) ! 0) = ''UDP''"
    "toUpperCase (split_ws (trim netstat_header) ! 0) = ''PROTO''"
    by (simp_all add: netstat_listening_tokens netstat_established_tokens netstat_udp_tokens
        netstat_header_tokens netstat_columns)
  have cols: "5 \<le> length (split_ws (trim netstat_listening))"
    "parseInt (split_ws (trim netstat_listening) ! 4) = Some 9912"
    "parseAddress (split_ws (trim netstat_listening) ! 1) = Some (''0.0.0.0'', 8080)"
    by (simp_all add: netstat_listening_tokens netstat_columns)
  have "windows_line netstat_listening =
      Some \<lparr>pid = 9912, port = 8080, protocol = ''TCP'', address = ''0.0.0.0'', command = None\<rparr>"
    using windows_line_included [OF refl refl, of netstat_listening 9912 "''0.0.0.0''" 8080
        run_netstat netstat_text] tokens cols
    by presburger
  then have listening: "windows_line netstat_listening = Some listener_8080"
    by (simp add: listener_8080_def)
  show ?thesis
    by (intro conjI tokens listening netstat_lines run_netstat_text netstat_text_records)
qed


section \<open>Properties of the listener repository\<close>

lemma compare_le: "compare a b \<le> 0 \<longleftrightarrow> by_port_pid a b"
  by (auto simp: compare_def by_port_pid_def)

lemma by_port_pid_total: "\<not> by_port_pid a b \<Longrightarrow> by_port_pid b a"
  by (auto simp: by_port_pid_def)

lemma by_port_pid_trans: "by_port_pid a b \<Longrightarrow> by_port_pid b c \<Longrightarrow> by_port_pid a c"
  by (auto simp: by_port_pid_def)

lemma set_insert_by: "set (insert_by cmp x xs) = insert x (set xs)"
  by (induction xs) auto

lemma sorted_insert_by:
  "sorted_wrt by_port_pid xs \<Longrightarrow> sorted_wrt by_port_pid (insert_by compare x xs)"
proof (induction xs)
  case Nil
  show ?case by simp
next
  case (Cons y ys)
  show ?case
  proof (cases "compare x y \<le> 0")
    case True
    then have xy: "by_port_pid x y" by (simp add: compare_le)
    have "\<forall>z \<in> set ys. by_port_pid x z"
      using Cons.prems xy by (auto intro: by_port_pid_trans)
    with True xy Cons.prems show ?thesis by simp
  next
    case False
    then have yx: "by_port_pid y x" by (simp add: compare_le by_port_pid_total)
    from Cons.prems have ys: "sorted_wrt by_port_pid ys" and y: "\<forall>z \<in> set ys. by_port_pid y z"
      by simp_all
    from False yx y Cons.IH [OF ys] show ?thesis
      by (simp add: set_insert_by)
  qed
qed

lemma sorted_sort_by: "sorted_wrt by_port_pid (sort_by compare xs)"
proof (induction xs)
  case Nil
  show ?case by (simp add: sort_by_def)
next
  case (Cons x xs)
  have "sort_by compare (x # xs) = insert_by compare x (sort_by compare xs)"
    by (simp add: sort_by_def)
  with Cons show ?case by (simp add: sorted_insert_by)
qed

lemma listListeningProcesses_sorted:
  "listListeningProcesses platform runCommand findProcess = Inr ps \<Longrightarrow> sorted_wrt by_port_pid ps"
  by (auto simp: listListeningProcesses_def sorted_sort_by split: sum.splits if_splits)

lemma listing_evaluated:
  "listListeningProcesses ''linux'' run_listing empty_table =
     Inr [listener_7, listener_3000, listener_9090]"
  by (simp add: listListeningProcesses_def getUnixProcesses_def run_listing_def
      lsof_listing_records enrichProcesses_def resolve_pid_def empty_table_def enrich_item_def
      truthy_def sort_by_def compare_def listener_9090_def listener_3000_def listener_7_def)

lemma port_3000_evaluated:
  "filterByPort ''linux'' run_listing empty_table 3000 = Inr [listener_7, listener_3000]"
  by (simp add: filterByPort_def listing_evaluated listener_9090_def listener_3000_def
      listener_7_def)

lemma range_evaluated:
  "filterByPortRange ''linux'' run_listing empty_table 3000 4000 = Inr [listener_7, listener_3000]"
  by (simp add: filterByPortRange_def listing_evaluated listener_9090_def listener_3000_def
      listener_7_def)

text \<open>
  C7. Whatever the listing tool printed and the enricher returned, a sequence returned
  by \<open>listListeningProcesses\<close>, by \<open>filterByPort\<close> or by \<open>filterByPortRange\<close> is in
  ascending order by port, and by process id among equal ports.
\<close>

theorem listing_sorted:
  "(listListeningProcesses platform runCommand findProcess = Inr ps \<longrightarrow> sorted_wrt by_port_pid ps) \<and>
   (filterByPort platform runCommand findProcess n = Inr qs \<longrightarrow> sorted_wrt by_port_pid qs) \<and>
   (filterByPortRange platform runCommand findProcess minPort maxPort = Inr rs \<longrightarrow>
      sorted_wrt by_port_pid rs)"
proof -
  have A: "sorted_wrt by_port_pid ps"
    if "listListeningProcesses platform runCommand findProcess = Inr ps"
    using that by (rule listListeningProcesses_sorted)
  have B: "sorted_wrt by_port_pid qs"
    if "filterByPort platform runCommand findProcess n = Inr qs"
  proof -
    from that obtain ps where "listListeningProcesses platform runCommand findProcess = Inr ps"
      and "qs = filter (\<lambda>item. port item = n) ps"
      by (auto simp: filterByPort_def split: sum.splits)
    then show ?thesis
      by (simp add: listListeningProcesses_sorted sorted_wrt_filter)
  qed
  have C: "sorted_wrt by_port_pid rs"
    if r: "filterByPortRange platform runCommand findProcess minPort maxPort = Inr rs"
  proof (cases "minPort > maxPort")
    case True
    with r show ?thesis by (simp add: filterByPortRange_def)
  next
    case False
    with r obtain ps where "listListeningProcesses platform runCommand findProcess = Inr ps"
      and "rs = filter (\<lambda>item. port item \<ge> minPort \<and> port item \<le> maxPort) ps"
      by (auto simp: filterByPortRange_def split: sum.splits)
    then show ?thesis
      by (simp add: listListeningProcesses_sorted sorted_wrt_filter)
  qed
  from A B C show ?thesis by blast
qed

theorem listing_sorted_witness:
  "unix_lines lsof_listing = [listener_9090, listener_3000, listener_7] \<and>
   listListeningProcesses ''linux'' run_listing empty_table =
     Inr [listener_7, listener_3000, listener_9090] \<and>
   sorted_wrt by_port_pid [listener_7, listener_3000, listener_9090] \<and>
   filterByPort ''linux'' run_listing empty_table 3000 = Inr [listener_7, listener_3000] \<and>
   filterByPortRange ''linux'' run_listing empty_table 3000 4000 = Inr [listener_7, listener_3000] \<and>
   sorted_wrt by_port_pid [listener_7, listener_3000]"
proof -
  note s = listing_sorted [of "''linux''" run_listing empty_table
      "[listener_7, listener_3000, listener_9090]" 3000 "[listener_7, listener_3000]"
      3000 4000 "[listener_7, listener_3000]"]
  have all: "sorted_wrt by_port_pid [listener_7, listener_3000, listener_9090]"
    using s listing_evaluated by blast
  have some: "sorted_wrt by_port_pid [listener_7, listener_3000]"
    using s port_3000_evaluated by blast
  show ?thesis
    by (intro conjI lsof_listing_records listing_evaluated all some port_3000_evaluated
        range_evaluated)
qed

text \<open>
  C8. For all integers \<open>minPort\<close> and \<open>maxPort\<close>: when \<open>minPort > maxPort\<close> the call
  returns the empty sequence, whatever discovery would have given, and never an error;
  when \<open>minPort \<le> maxPort\<close> it returns the sequence of \<open>listListeningProcesses\<close>
  filtered to the records with \<open>minPort \<le> port \<le> maxPort\<close> (and fails when that
  call fails).
\<close>

theorem filterByPortRange_spec:
  "(minPort > maxPort \<longrightarrow>
      filterByPortRange platform runCommand findProcess minPort maxPort = Inr []) \<and>
   (minPort \<le> maxPort \<longrightarrow>
      filterByPortRange platform runCommand findProcess minPort maxPort =
        (case listListeningProcesses platform runCommand findProcess of
           Inl e \<Rightarrow> Inl e
         | Inr processes \<Rightarrow>
             Inr (filter (\<lambda>item. minPort \<le> port item \<and> port item \<le> maxPort) processes)))"
  by (auto simp: filterByPortRange_def split: sum.splits)

theorem filterByPortRange_spec_witness:
  "(4000::int) > 3000 \<and>
   filterByPortRange ''linux'' run_listing empty_table 4000 3000 = Inr [] \<and>
   (3000::int) \<le> 4000 \<and>
   listListeningProcesses ''linux'' run_listing empty_table =
     Inr [listener_7, listener_3000, listener_9090] \<and>
   filterByPortRange ''linux'' run_listing empty_table 3000 4000 = Inr [listener_7, listener_3000]"
proof -
  have "(4000::int) > 3000" by simp
  then have empty: "filterByPortRange ''linux'' run_listing empty_table 4000 3000 = Inr []"
    using filterByPortRange_spec [of 3000 4000 "''linux''" run_listing empty_table] by blast
  show ?thesis
    by (intro conjI empty listing_evaluated range_evaluated) simp_all
qed


section \<open>Properties of the termination service\<close>

lemma settle_success:
  "success (settle m att order out) = success out @ map ((!) m) (filter (\<lambda>i. \<not> isl (att i)) order)"
  by (induction order arbitrary: out) (auto split: sum.splits)

lemma settle_failed:
  "map fst (failed (settle m att order out)) =
     map fst (failed out) @ map ((!) m) (filter (\<lambda>i. isl (att i)) order)"
  by (induction order arbitrary: out) (auto split: sum.splits)

lemma settle_partition:
  assumes "mset order = mset [0..<length m]"
  shows "mset (success (settle m att order \<lparr>success = [], failed = []\<rparr>)) +
         mset (map fst (failed (settle m att order \<lparr>success = [], failed = []\<rparr>))) = mset m"
proof -
  have "mset (map ((!) m) (filter (\<lambda>i. \<not> isl (att i)) order)) +
        mset (map ((!) m) (filter (\<lambda>i. isl (att i)) order)) = mset (map ((!) m) order)"
    by (induction order) auto
  also have "\<dots> = image_mset ((!) m) (mset [0..<length m])"
    using assms by (metis mset_map)
  also have "\<dots> = mset (map ((!) m) [0..<length m])" by simp
  also have "\<dots> = mset m" by (simp add: map_nth)
  finally show ?thesis by (simp add: settle_success settle_failed)
qed

lemma in_exactly_one:
  assumes "mset xs + mset ys = mset zs" and "count (mset zs) r = 1"
  shows "(r \<in> set xs) \<noteq> (r \<in> set ys)"
proof -
  have c: "count_list xs r + count_list ys r = 1"
    using assms by (metis count_union count_mset)
  have "r \<in> set xs \<longleftrightarrow> count_list xs r \<noteq> 0" and "r \<in> set ys \<longleftrightarrow> count_list ys r \<noteq> 0"
    by (simp_all add: count_list_0_iff)
  with c show ?thesis by auto
qed

lemma order_is_permutation: "mset [1, 0] = mset [0..<length [listener_7, listener_3000]]"
  by (simp add: upt_rec)

lemma kill_evaluated:
  "killByPort ''linux'' run_listing empty_table no_exec kill_all_but_77 [1, 0] 3000 =
     Inr \<lparr>success = [listener_3000], failed = [(listener_7, denied)]\<rparr>"
  by (simp add: killByPort_def port_3000_evaluated terminateProcess_def kill_all_but_77_def
      listener_3000_def listener_7_def denied_def)

text \<open>
  C3. When the initial \<open>filterByPort\<close> call returns the matches and every callback
  settles once (\<open>order\<close> is a permutation of the indices of the matches), \<open>killByPort\<close>
  returns an outcome whose \<open>success\<close> records and \<open>failed\<close> records together are
  exactly the matches, each as often as it was matched, whichever attempts fail; a record
  matched once is in exactly one of the two collections.
\<close>

theorem killByPort_partition:
  assumes "filterByPort platform runCommand findProcess n = Inr matches"
    and "mset order = mset [0..<length matches]"
  shows "\<exists>out. killByPort platform runCommand findProcess execs kills order n = Inr out \<and>
           mset (success out) + mset (map fst (failed out)) = mset matches \<and>
           (\<forall>r. count (mset matches) r = 1 \<longrightarrow>
                (r \<in> set (success out)) \<noteq> (r \<in> set (map fst (failed out))))"
proof -
  let ?out = "settle matches
                 (\<lambda>i. terminateProcess platform (execs i) (kills i) (pid (matches ! i)))
                 order \<lparr>success = [], failed = []\<rparr>"
  have k: "killByPort platform runCommand findProcess execs kills order n = Inr ?out"
    using assms(1) by (simp add: killByPort_def)
  have p: "mset (success ?out) + mset (map fst (failed ?out)) = mset matches"
    using assms(2) by (rule settle_partition)
  have "\<forall>r. count (mset matches) r = 1 \<longrightarrow>
          (r \<in> set (success ?out)) \<noteq> (r \<in> set (map fst (failed ?out)))"
    using in_exactly_one [OF p] by blast
  with k p show ?thesis by blast
qed

theorem killByPort_partition_witness:
  "filterByPort ''linux'' run_listing empty_table 3000 = Inr [listener_7, listener_3000] \<and>
   mset [1, 0] = mset [0..<length [listener_7, listener_3000]] \<and>
   killByPort ''linux'' run_listing empty_table no_exec kill_all_but_77 [1, 0] 3000 =
     Inr \<lparr>success = [listener_3000], failed = [(listener_7, denied)]\<rparr> \<and>
   mset [listener_3000] + mset (map fst [(listener_7, denied)]) = mset [listener_7, listener_3000]"
proof -
  from killByPort_partition [OF port_3000_evaluated order_is_permutation,
      of no_exec kill_all_but_77]
  obtain out where
    "killByPort ''linux'' run_listing empty_table no_exec kill_all_but_77 [1, 0] 3000 = Inr out"
    and "mset (success out) + mset (map fst (failed out)) = mset [listener_7, listener_3000]"
    by blast
  then have parts: "mset [listener_3000] + mset (map fst [(listener_7, denied)]) =
      mset [listener_7, listener_3000]"
    by (simp add: kill_evaluated)
  show ?thesis
    by (intro conjI port_3000_evaluated order_is_permutation kill_evaluated parts)
qed

text \<open>
  C4. On a platform other than \<open>win32\<close>: when \<open>process.kill\<close> throws with code
  \<open>ESRCH\<close>, \<open>terminateProcess\<close> returns normally; and \<open>killByPid\<close> fails with an error
  exactly when \<open>process.kill\<close> throws that error and its code is not \<open>ESRCH\<close>.
\<close>

theorem terminateProcess_absent_is_success:
  "platform \<noteq> ''win32'' \<Longrightarrow>
   (kill p = Some e \<and> err_code e = Some ''ESRCH'' \<longrightarrow>
      terminateProcess platform execAsync kill p = Inr ()) \<and>
   (killByPid platform execAsync kill p = Inl e \<longleftrightarrow>
      kill p = Some e \<and> err_code e \<noteq> Some ''ESRCH'')"
  by (auto simp: terminateProcess_def killByPid_def split: option.splits)

theorem terminateProcess_absent_is_success_witness:
  "''linux'' \<noteq> ''win32'' \<and>
   err_code gone = Some ''ESRCH'' \<and>
   terminateProcess ''linux'' (\<lambda>c. Inr []) (\<lambda>p. Some gone) 4821 = Inr () \<and>
   killByPid ''linux'' (\<lambda>c. Inr []) (\<lambda>p. Some gone) 4821 = Inr () \<and>
   err_code denied \<noteq> Some ''ESRCH'' \<and>
   killByPid ''linux'' (\<lambda>c. Inr []) (\<lambda>p. Some denied) 4821 = Inl denied"
  using terminateProcess_absent_is_success [of "''linux''" "\<lambda>p. Some gone" 4821 gone "\<lambda>c. Inr []"]
    terminateProcess_absent_is_success [of "''linux''" "\<lambda>p. Some denied" 4821 denied "\<lambda>c. Inr []"]
  by (simp add: gone_def denied_def terminateProcess_def killByPid_def)



section \<open>Properties of the live monitor loop\<close>

lemma render_rows_eq:
  "render_rows seen ps (rows, keys) =
     (rows @ map (\<lambda>p. (if makeKey p \<notin> seen then ''+'' else '' '') @ '' '' @ formatProcess p) ps,
      keys \<union> makeKey ` set ps)"
  by (induction ps arbitrary: rows keys) (auto simp: Let_def)

lemma keys_evaluated:
  "makeKey listener_3000 = ''TCP:3000:4821''" "makeKey listener_4000 = ''TCP:4000:551''"
  "formatProcess listener_3000 = ''TCP/3000 pid:4821 addr:* node''"
  "formatProcess listener_4000 = ''TCP/4000 pid:551 addr:* ruby''"
  by (simp_all add: makeKey_def formatProcess_def show_int_def show_nat.simps
      listener_3000_def listener_4000_def)

text \<open>
  C9. For a render whose read returns the records \<open>processes\<close>: the row printed for a
  record starts with \<open>+\<close> exactly when its key \<open>protocol:port:pid\<close> is not in the key
  set remembered from the previous render, and afterwards the remembered key set is
  exactly the set of keys of this render. With \<open>TCP:3000:4821\<close> remembered and the
  records of the keys \<open>TCP:3000:4821\<close> and \<open>TCP:4000:551\<close> read, only the second row is
  marked.
\<close>

theorem renderOnce_marks_new:
  assumes "fetched = Inr processes"
  shows "snd (renderOnce fetched seenKeys) = makeKey ` set processes \<and>
         (processes \<noteq> [] \<longrightarrow>
            length (fst (renderOnce fetched seenKeys)) = length processes \<and>
            (\<forall>i < length processes.
               fst (renderOnce fetched seenKeys) ! i =
                 (if makeKey (processes ! i) \<notin> seenKeys then ''+'' else '' '') @ '' '' @
                 formatProcess (processes ! i)))"
  using assms by (auto simp: renderOnce_def render_rows_eq)

theorem renderOnce_marks_new_witness:
  "makeKey listener_3000 = ''TCP:3000:4821'' \<and> makeKey listener_4000 = ''TCP:4000:551'' \<and>
   renderOnce (Inr [listener_3000, listener_4000]) {''TCP:3000:4821''} =
     ([''  TCP/3000 pid:4821 addr:* node'', ''+ TCP/4000 pid:551 addr:* ruby''],
      {''TCP:3000:4821'', ''TCP:4000:551''})"
proof -
  note t = renderOnce_marks_new [OF refl, of "[listener_3000, listener_4000]" "{''TCP:3000:4821''}"]
  have s: "snd (renderOnce (Inr [listener_3000, listener_4000]) {''TCP:3000:4821''}) =
      {''TCP:3000:4821'', ''TCP:4000:551''}"
    using t by (simp add: keys_evaluated)
  have f: "fst (renderOnce (Inr [listener_3000, listener_4000]) {''TCP:3000:4821''}) =
      [''  TCP/3000 pid:4821 addr:* node'', ''+ TCP/4000 pid:551 addr:* ruby'']"
    by (simp add: renderOnce_def keys_evaluated)
  have "renderOnce (Inr [listener_3000, listener_4000]) {''TCP:3000:4821''} =
     ([''  TCP/3000 pid:4821 addr:* node'', ''+ TCP/4000 pid:551 addr:* ruby''],
      {''TCP:3000:4821'', ''TCP:4000:551''})"
    using s f by (metis prod.collapse)
  then show ?thesis by (simp add: keys_evaluated)
qed


end
